theory Spec2Isabelle
  imports Complex_Main
begin

section \<open>Data model of the Sampler\<close>

text \<open>
  The instrument is the class \<open>Sampler\<close>. Its collaborators (the buffer storage
  \<open>ToneAudioBuffers\<close>, the playable source \<open>ToneBufferSource\<close>, the pitch
  conversion \<open>FrequencyClass.toMidi\<close> and the clock \<open>toSeconds\<close>) live outside the
  modelled file; they appear here as data the sampler holds or as parameters.
\<close>

type_synonym MidiNote = int
type_synonym Interval = int

text \<open>A \<open>Time\<close> argument: left out by the caller, a number of seconds, or a notation
  such as \<open>8n\<close> that only the clock can read.\<close>

datatype time = Undefined | Seconds real | Notation string

datatype ToneBufferSourceCurve = Linear | Exponential

text \<open>An argument that is either one value or an array of values
  (\<open>Frequency | Frequency[]\<close>, \<open>Time | Time[]\<close>).\<close>

datatype 'a arg = Scalar 'a | Array "'a list"

text \<open>The two ways the code raises: the \<open>throw new Error\<close> of \<open>_findClosest\<close> and a
  failed \<open>assert\<close> with its message.\<close>

datatype error = NoAvailableBuffers MidiNote | AssertionFailed string

record ToneAudioBuffer =
  duration :: real

text \<open>A \<open>ToneBufferSource\<close> object: the options it was built with, the arguments of the
  \<open>start\<close> and \<open>stop\<close> calls it has received, whether it was disposed, and the key its
  \<open>onended\<close> callback closes over.\<close>

record ToneBufferSource =
  src_buffer :: ToneAudioBuffer
  src_curve :: ToneBufferSourceCurve
  src_fadeIn :: time
  src_fadeOut :: time
  src_playbackRate :: real
  src_started :: "(time \<times> real \<times> real \<times> real) option"
  src_stopped :: "time option"
  src_disposed :: bool
  src_onended :: "MidiNote option"

text \<open>The context: the conversions the sampler asks of its collaborators.\<close>

record 'n ToneContext =
  toMidi :: "'n \<Rightarrow> MidiNote"
  toSeconds :: "time \<Rightarrow> real"

text \<open>
  The sampler. \<open>_buffers\<close> maps a MIDI key to its buffer; \<open>_activeSources\<close> is the
  JavaScript \<open>Map\<close> from the requested MIDI key to the array of sources playing it, kept
  as an association list in insertion order. Sources are objects shared between the
  arrays and the callbacks, so the arrays hold references into \<open>heap\<close>; \<open>next_ref\<close> is
  the reference the next \<open>new ToneBufferSource\<close> gets.
\<close>

record 'n Sampler =
  buffers :: "MidiNote \<rightharpoonup> ToneAudioBuffer"
  activeSources :: "(MidiNote \<times> nat list) list"
  attack :: time
  release :: time
  curve :: ToneBufferSourceCurve
  ctx :: "'n ToneContext"
  heap :: "nat \<Rightarrow> ToneBufferSource"
  next_ref :: nat

text \<open>A call returns normally (\<open>None\<close>) or throws (\<open>Some e\<close>); either way the sampler is
  left in the state reached so far.\<close>

type_synonym 'n outcome = "error option \<times> 'n Sampler"

subsection \<open>The JavaScript containers\<close>

definition buffers_has :: "(MidiNote \<rightharpoonup> ToneAudioBuffer) \<Rightarrow> MidiNote \<Rightarrow> bool" where
  "buffers_has b k = (b k \<noteq> None)"

fun Map_has :: "('k \<times> 'v) list \<Rightarrow> 'k \<Rightarrow> bool" where
  "Map_has [] k = False"
| "Map_has ((k', v) # m) k = (if k' = k then True else Map_has m k)"

fun Map_get :: "('k \<times> 'v) list \<Rightarrow> 'k \<Rightarrow> 'v option" where
  "Map_get [] k = None"
| "Map_get ((k', v) # m) k = (if k' = k then Some v else Map_get m k)"

text \<open>\<open>Map.set\<close> overwrites the value of a key in place and appends a new key.\<close>

fun Map_set :: "('k \<times> 'v) list \<Rightarrow> 'k \<Rightarrow> 'v \<Rightarrow> ('k \<times> 'v) list" where
  "Map_set [] k v = [(k, v)]"
| "Map_set ((k', v') # m) k v = (if k' = k then (k, v) # m else (k', v') # Map_set m k v)"

text \<open>The sources sounding under a key: the array stored there, or none.\<close>

definition voices_at :: "'n Sampler \<Rightarrow> MidiNote \<Rightarrow> nat list" where
  "voices_at s k = (case Map_get (activeSources s) k of None \<Rightarrow> [] | Some sources \<Rightarrow> sources)"

fun as_array :: "'a arg \<Rightarrow> 'a list" where
  "as_array (Scalar x) = [x]"
| "as_array (Array xs) = xs"

fun isArray :: "'a arg \<Rightarrow> bool" where
  "isArray (Scalar x) = False"
| "isArray (Array xs) = True"

section \<open>Pitch resolution\<close>

definition MAX_INTERVAL :: int where
  "MAX_INTERVAL = 96"

text \<open>The \<open>while\<close> loop of \<open>_findClosest\<close>, started at \<open>interval\<close>.\<close>

function findClosest_loop :: "(MidiNote \<Rightarrow> bool) \<Rightarrow> MidiNote \<Rightarrow> int \<Rightarrow> error + Interval" where
  "findClosest_loop has midi interval =
     (if interval < MAX_INTERVAL then
        if has (midi + interval) then Inr (- interval)
        else if has (midi - interval) then Inr interval
        else findClosest_loop has midi (interval + 1)
      else Inl (NoAvailableBuffers midi))"
  by pat_completeness auto
termination
  by (relation "measure (\<lambda>(has, midi, interval). nat (MAX_INTERVAL - interval))") auto

declare findClosest_loop.simps [simp del]

definition findClosest :: "'n Sampler \<Rightarrow> MidiNote \<Rightarrow> error + Interval" where
  "findClosest s midi = findClosest_loop (buffers_has (buffers s)) midi 0"

text \<open>Modelled from the spec: \<open>intervalToFrequencyRatio\<close> is imported from
  \<open>core/type/Conversions\<close>, which is not among the sources; the spec gives
  \<open>ratio = 2^(interval/12)\<close>.\<close>

definition intervalToFrequencyRatio :: "Interval \<Rightarrow> real" where
  "intervalToFrequencyRatio interval = 2 powr (real_of_int interval / 12)"

section \<open>The playable source\<close>

text \<open>Modelled from the spec: \<open>ToneBufferSource\<close> is not among the sources. The spec's
  playable source is built from a buffer, a playback ratio and the fade durations, and
  supports \<open>start(time, offset, duration, velocity)\<close>, \<open>stop(time)\<close> and disposal; the
  model records on the object the arguments of the calls it receives.\<close>

definition new_ToneBufferSource ::
  "ToneAudioBuffer \<Rightarrow> ToneBufferSourceCurve \<Rightarrow> time \<Rightarrow> time \<Rightarrow> real \<Rightarrow> ToneBufferSource" where
  "new_ToneBufferSource buffer crv fadeIn fadeOut playbackRate =
     \<lparr>src_buffer = buffer, src_curve = crv, src_fadeIn = fadeIn, src_fadeOut = fadeOut,
      src_playbackRate = playbackRate, src_started = None, src_stopped = None,
      src_disposed = False, src_onended = None\<rparr>"

definition source_start ::
  "(nat \<Rightarrow> ToneBufferSource) \<Rightarrow> nat \<Rightarrow> time \<Rightarrow> real \<Rightarrow> real \<Rightarrow> real \<Rightarrow> (nat \<Rightarrow> ToneBufferSource)" where
  "source_start h source time offset dur velocity =
     h(source := (h source)\<lparr>src_started := Some (time, offset, dur, velocity)\<rparr>)"

definition source_stop ::
  "(nat \<Rightarrow> ToneBufferSource) \<Rightarrow> nat \<Rightarrow> time \<Rightarrow> (nat \<Rightarrow> ToneBufferSource)" where
  "source_stop h source time = h(source := (h source)\<lparr>src_stopped := Some time\<rparr>)"

definition source_dispose ::
  "(nat \<Rightarrow> ToneBufferSource) \<Rightarrow> nat \<Rightarrow> (nat \<Rightarrow> ToneBufferSource)" where
  "source_dispose h source = h(source := (h source)\<lparr>src_disposed := True\<rparr>)"

text \<open>Modelled from the spec: \<open>ToneAudioBuffers.dispose\<close> is not among the sources;
  disposal releases the buffer storage, after which no key has a buffer.\<close>

definition buffers_dispose :: "(MidiNote \<rightharpoonup> ToneAudioBuffer) \<Rightarrow> (MidiNote \<rightharpoonup> ToneAudioBuffer)" where
  "buffers_dispose b = Map.empty"

section \<open>The trigger operations\<close>

subsection \<open>triggerAttack\<close>

text \<open>\<open>(this._activeSources.get(midi) as ToneBufferSource[]).push(source)\<close>: the array
  stored at the key grows in place. The key has just been set, so the array is there.\<close>

definition Array_push :: "(MidiNote \<times> nat list) list \<Rightarrow> MidiNote \<Rightarrow> nat \<Rightarrow> (MidiNote \<times> nat list) list" where
  "Array_push m midi source =
     (case Map_get m midi of None \<Rightarrow> m | Some sources \<Rightarrow> Map_set m midi (sources @ [source]))"

text \<open>The body of \<open>notes.forEach\<close> in \<open>triggerAttack\<close>, for one note. A \<open>throw\<close> leaves
  the body before anything was changed. \<open>_buffers.get\<close> asserts that the key has a buffer,
  which \<open>_findClosest\<close> has just checked with \<open>has\<close>.\<close>

definition attack_note :: "'n Sampler \<Rightarrow> time \<Rightarrow> real \<Rightarrow> 'n \<Rightarrow> 'n outcome" where
  "attack_note s time velocity note =
     (let midi = toMidi (ctx s) note in
      case findClosest s midi of
        Inl e \<Rightarrow> (Some e, s)
      | Inr difference \<Rightarrow>
          (let closestNote = midi - difference in
           case buffers s closestNote of
             None \<Rightarrow> (Some (AssertionFailed ''ToneAudioBuffers has no buffer named''), s)
           | Some buffer \<Rightarrow>
               (let playbackRate = intervalToFrequencyRatio difference;
                    source = next_ref s;
                    h1 = (heap s)(source :=
                           new_ToneBufferSource buffer (curve s) (attack s) (release s) playbackRate);
                    h2 = source_start h1 source time 0 (duration buffer / playbackRate) velocity;
                    m1 = (if \<not> Map_has (activeSources s) midi
                          then Map_set (activeSources s) midi [] else activeSources s);
                    m2 = Array_push m1 midi source;
                    h3 = h2(source := (h2 source)\<lparr>src_onended := Some midi\<rparr>)
                in (None, s\<lparr>activeSources := m2, heap := h3, next_ref := Suc source\<rparr>))))"

text \<open>\<open>notes.forEach\<close>: an error thrown by the body ends the iteration.\<close>

fun attack_forEach :: "'n Sampler \<Rightarrow> time \<Rightarrow> real \<Rightarrow> 'n list \<Rightarrow> 'n outcome" where
  "attack_forEach s time velocity [] = (None, s)"
| "attack_forEach s time velocity (note # notes) =
     (case attack_note s time velocity note of
        (Some e, s') \<Rightarrow> (Some e, s')
      | (None, s') \<Rightarrow> attack_forEach s' time velocity notes)"

definition triggerAttack :: "'n Sampler \<Rightarrow> 'n arg \<Rightarrow> time \<Rightarrow> real option \<Rightarrow> 'n outcome" where
  "triggerAttack s notes time velocity =
     attack_forEach s time (case velocity of None \<Rightarrow> 1 | Some v \<Rightarrow> v) (as_array notes)"

text \<open>The \<open>onended\<close> callback of a source, closed over \<open>midi\<close> and the source.\<close>

fun indexOf :: "'a list \<Rightarrow> 'a \<Rightarrow> nat option" where
  "indexOf [] x = None"
| "indexOf (y # ys) x = (if y = x then Some 0 else map_option Suc (indexOf ys x))"

definition splice1 :: "'a list \<Rightarrow> nat \<Rightarrow> 'a list" where
  "splice1 xs index = take index xs @ drop (Suc index) xs"

definition onended :: "'n Sampler \<Rightarrow> MidiNote \<Rightarrow> nat \<Rightarrow> 'n Sampler" where
  "onended s midi source =
     (if Map_has (activeSources s) midi then
        (case indexOf (voices_at s midi) source of
           None \<Rightarrow> s
         | Some index \<Rightarrow>
             s\<lparr>activeSources := Map_set (activeSources s) midi (splice1 (voices_at s midi) index)\<rparr>)
      else s)"

subsection \<open>triggerRelease\<close>

text \<open>\<open>sources.forEach(source => source.stop(time))\<close>.\<close>

fun stop_forEach :: "(nat \<Rightarrow> ToneBufferSource) \<Rightarrow> time \<Rightarrow> nat list \<Rightarrow> (nat \<Rightarrow> ToneBufferSource)" where
  "stop_forEach h time [] = h"
| "stop_forEach h time (source # sources) = stop_forEach (source_stop h source time) time sources"

text \<open>The body of \<open>notes.forEach\<close> in \<open>triggerRelease\<close>. The variable \<open>time\<close> belongs to
  the enclosing call and is overwritten by the body, so it is passed on with the state.\<close>

definition release_note :: "'n Sampler \<Rightarrow> time \<Rightarrow> 'n \<Rightarrow> 'n Sampler \<times> time" where
  "release_note s time note =
     (let midi = toMidi (ctx s) note in
      if Map_has (activeSources s) midi \<and> length (voices_at s midi) \<noteq> 0 then
        (let sources = voices_at s midi;
             time' = Seconds (toSeconds (ctx s) time);
             h = stop_forEach (heap s) time' sources
         in (s\<lparr>activeSources := Map_set (activeSources s) midi [], heap := h\<rparr>, time'))
      else (s, time))"

fun release_forEach :: "'n Sampler \<Rightarrow> time \<Rightarrow> 'n list \<Rightarrow> 'n Sampler \<times> time" where
  "release_forEach s time [] = (s, time)"
| "release_forEach s time (note # notes) =
     (case release_note s time note of (s', time') \<Rightarrow> release_forEach s' time' notes)"

definition triggerRelease :: "'n Sampler \<Rightarrow> 'n arg \<Rightarrow> time \<Rightarrow> 'n outcome" where
  "triggerRelease s notes time = (None, fst (release_forEach s time (as_array notes)))"

subsection \<open>releaseAll\<close>

text \<open>One pass of \<open>while (sources.length) { const source = sources.shift();
  source.stop(computedTime) }\<close> on the heap and the array: \<open>None\<close> when the test
  \<open>sources.length\<close> fails, otherwise the first source is shifted off the array and then
  stopped.\<close>

definition drain_step ::
  "time \<Rightarrow> (nat \<Rightarrow> ToneBufferSource) \<times> nat list \<Rightarrow> ((nat \<Rightarrow> ToneBufferSource) \<times> nat list) option" where
  "drain_step computedTime st =
     (case snd st of
        [] \<Rightarrow> None
      | source # sources \<Rightarrow> Some (source_stop (fst st) source computedTime, sources))"

text \<open>The run of the loop: the states it passes through, one at each test of
  \<open>sources.length\<close>, the last being the one in which the test fails.\<close>

function drain_states ::
  "time \<Rightarrow> (nat \<Rightarrow> ToneBufferSource) \<times> nat list \<Rightarrow> ((nat \<Rightarrow> ToneBufferSource) \<times> nat list) list" where
  "drain_states computedTime st =
     (case drain_step computedTime st of
        None \<Rightarrow> [st]
      | Some st' \<Rightarrow> st # drain_states computedTime st')"
  by pat_completeness auto
termination
  by (relation "measure (\<lambda>(computedTime, st). length (snd st))")
    (auto simp: drain_step_def split: list.splits)

declare drain_states.simps [simp del]




subsection \<open>triggerAttackRelease\<close>

text \<open>\<open>notes.forEach((note, index) => ...)\<close> of the array branch. An index past the end
  of a JavaScript array reads \<open>undefined\<close>, which happens here for an empty \<open>duration\<close>.\<close>

fun release_each :: "'n Sampler \<Rightarrow> real \<Rightarrow> time list \<Rightarrow> nat \<Rightarrow> 'n list \<Rightarrow> 'n outcome" where
  "release_each s computedTime ds index [] = (None, s)"
| "release_each s computedTime ds index (note # notes) =
     (let d = (if ds = [] then Undefined else ds ! min index (length ds - 1)) in
      case triggerRelease s (Scalar note) (Seconds (computedTime + toSeconds (ctx s) d)) of
        (Some e, s') \<Rightarrow> (Some e, s')
      | (None, s') \<Rightarrow> release_each s' computedTime ds (Suc index) notes)"

definition triggerAttackRelease ::
  "'n Sampler \<Rightarrow> 'n arg \<Rightarrow> time arg \<Rightarrow> time \<Rightarrow> real option \<Rightarrow> 'n outcome" where
  "triggerAttackRelease s notes dur time velocity =
     (let computedTime = toSeconds (ctx s) time in
      case triggerAttack s notes (Seconds computedTime)
             (Some (case velocity of None \<Rightarrow> 1 | Some v \<Rightarrow> v)) of
        (Some e, s1) \<Rightarrow> (Some e, s1)
      | (None, s1) \<Rightarrow>
          (case dur of
             Array ds \<Rightarrow>
               (if \<not> isArray notes
                then (Some (AssertionFailed ''notes must be an array when duration is array''), s1)
                else release_each s1 computedTime ds 0 (as_array notes))
           | Scalar d \<Rightarrow>
               triggerRelease s1 notes (Seconds (computedTime + toSeconds (ctx s1) d))))"

subsection \<open>dispose\<close>

fun dispose_forEach :: "(nat \<Rightarrow> ToneBufferSource) \<Rightarrow> nat list \<Rightarrow> (nat \<Rightarrow> ToneBufferSource)" where
  "dispose_forEach h [] = h"
| "dispose_forEach h (source # sources) = dispose_forEach (source_dispose h source) sources"

fun dispose_all :: "(nat \<Rightarrow> ToneBufferSource) \<Rightarrow> (MidiNote \<times> nat list) list \<Rightarrow> (nat \<Rightarrow> ToneBufferSource)" where
  "dispose_all h [] = h"
| "dispose_all h ((midi, sources) # m) = dispose_all (dispose_forEach h sources) m"

text \<open>\<open>super.dispose()\<close> tears down the audio nodes of the instrument, which are not part
  of the sampler's own state.\<close>

definition dispose :: "'n Sampler \<Rightarrow> 'n Sampler" where
  "dispose s = s\<lparr>buffers := buffers_dispose (buffers s),
                 activeSources := [],
                 heap := dispose_all (heap s) (activeSources s)\<rparr>"

text \<open>The state in which the body of \<open>triggerAttack\<close> leaves the sampler when it has
  resolved \<open>midi\<close> to the interval \<open>d\<close> and fetched \<open>buffer\<close>: the new source, started,
  stands at the end of the array of \<open>midi\<close>.\<close>

definition played :: "'n Sampler \<Rightarrow> time \<Rightarrow> real \<Rightarrow> MidiNote \<Rightarrow> Interval \<Rightarrow> ToneAudioBuffer \<Rightarrow> 'n Sampler" where
  "played s time velocity midi d buffer =
     s\<lparr>activeSources := Map_set (activeSources s) midi (voices_at s midi @ [next_ref s]),
       heap := (heap s)(next_ref s :=
          \<lparr>src_buffer = buffer, src_curve = curve s, src_fadeIn = attack s,
           src_fadeOut = release s, src_playbackRate = intervalToFrequencyRatio d,
           src_started = Some (time, 0, duration buffer / intervalToFrequencyRatio d, velocity),
           src_stopped = None, src_disposed = False, src_onended = Some midi\<rparr>),
       next_ref := Suc (next_ref s)\<rparr>"

section \<open>Example samplers\<close>

definition example_ctx :: "int ToneContext" where
  "example_ctx = \<lparr>toMidi = id, toSeconds = (\<lambda>t. case t of Seconds x \<Rightarrow> x | _ \<Rightarrow> 0)\<rparr>"

definition blank_source :: ToneBufferSource where
  "blank_source = \<lparr>src_buffer = \<lparr>duration = 0\<rparr>, src_curve = Exponential,
     src_fadeIn = Seconds 0, src_fadeOut = Seconds 0, src_playbackRate = 1,
     src_started = None, src_stopped = None, src_disposed = False, src_onended = None\<rparr>"

text \<open>A freshly constructed sampler (default options) holding the given buffers.\<close>

definition new_Sampler :: "(MidiNote \<rightharpoonup> ToneAudioBuffer) \<Rightarrow> int Sampler" where
  "new_Sampler b = \<lparr>buffers = b, activeSources = [], attack = Seconds 0,
     release = Seconds (1 / 10), curve = Exponential, ctx = example_ctx,
     heap = (\<lambda>r. blank_source), next_ref = 0\<rparr>"

definition sampler_60_64 :: "int Sampler" where
  "sampler_60_64 = new_Sampler [60 \<mapsto> \<lparr>duration = 2\<rparr>, 64 \<mapsto> \<lparr>duration = 2\<rparr>]"

definition sampler_156 :: "int Sampler" where
  "sampler_156 = new_Sampler [156 \<mapsto> \<lparr>duration = 2\<rparr>]"

definition sampler_155 :: "int Sampler" where
  "sampler_155 = new_Sampler [155 \<mapsto> \<lparr>duration = 2\<rparr>]"

text \<open>A sampler with four sources sounding under three keys.\<close>

definition sampler_playing :: "int Sampler" where
  "sampler_playing = (new_Sampler [60 \<mapsto> \<lparr>duration = 2\<rparr>, 64 \<mapsto> \<lparr>duration = 2\<rparr>])
     \<lparr>activeSources := [(60, [0]), (62, [1, 2]), (67, [3])], next_ref := 4\<rparr>"

section \<open>Properties of pitch resolution\<close>

lemma findClosest_loop_found:
  "findClosest_loop has midi i = Inr d \<Longrightarrow> 0 \<le> i \<Longrightarrow>
     i \<le> \<bar>d\<bar> \<and> \<bar>d\<bar> < MAX_INTERVAL \<and> has (midi - d) \<and>
     (has (midi + \<bar>d\<bar>) \<longrightarrow> d = - \<bar>d\<bar>) \<and>
     (\<forall>r. i \<le> r \<and> r < \<bar>d\<bar> \<longrightarrow> \<not> has (midi + r) \<and> \<not> has (midi - r))"
proof (induction has midi i rule: findClosest_loop.induct)
  case (1 has midi interval)
  show ?case
  proof (cases "interval < MAX_INTERVAL")
    case False
    with "1.prems" show ?thesis
      by (simp add: findClosest_loop.simps [of has midi interval])
  next
    case lt: True
    show ?thesis
    proof (cases "has (midi + interval)")
      case True
      with lt "1.prems" show ?thesis
        by (auto simp: findClosest_loop.simps [of has midi interval])
    next
      case above: False
      show ?thesis
      proof (cases "has (midi - interval)")
        case True
        with lt above "1.prems" show ?thesis
          by (auto simp: findClosest_loop.simps [of has midi interval])
      next
        case below: False
        from lt above below "1.prems"
        have rec: "findClosest_loop has midi (interval + 1) = Inr d"
          by (simp add: findClosest_loop.simps [of has midi interval])
        from "1.IH" [OF lt above below rec] "1.prems"(2)
        have ih: "interval + 1 \<le> \<bar>d\<bar>" "\<bar>d\<bar> < MAX_INTERVAL" "has (midi - d)"
          "has (midi + \<bar>d\<bar>) \<longrightarrow> d = - \<bar>d\<bar>"
          "\<forall>r. interval + 1 \<le> r \<and> r < \<bar>d\<bar> \<longrightarrow> \<not> has (midi + r) \<and> \<not> has (midi - r)"
          by simp_all
        have "\<not> has (midi + r) \<and> \<not> has (midi - r)" if "interval \<le> r" "r < \<bar>d\<bar>" for r
        proof (cases "r = interval")
          case True
          with above below show ?thesis by simp
        next
          case False
          with that ih(5) show ?thesis by simp
        qed
        with ih show ?thesis by simp
      qed
    qed
  qed
qed

lemma findClosest_loop_fails:
  "0 \<le> i \<Longrightarrow>
   (findClosest_loop has midi i = Inl (NoAvailableBuffers midi)) =
   (\<forall>r. i \<le> r \<and> r < MAX_INTERVAL \<longrightarrow> \<not> has (midi + r) \<and> \<not> has (midi - r))"
proof (induction has midi i rule: findClosest_loop.induct)
  case (1 has midi interval)
  show ?case
  proof (cases "interval < MAX_INTERVAL")
    case False
    then show ?thesis
      by (auto simp: findClosest_loop.simps [of has midi interval])
  next
    case lt: True
    show ?thesis
    proof (cases "has (midi + interval) \<or> has (midi - interval)")
      case True
      with lt have "findClosest_loop has midi interval \<noteq> Inl (NoAvailableBuffers midi)"
        by (auto simp: findClosest_loop.simps [of has midi interval])
      moreover from True lt
      have "\<not> (\<forall>r. interval \<le> r \<and> r < MAX_INTERVAL \<longrightarrow> \<not> has (midi + r) \<and> \<not> has (midi - r))"
        by (intro notI) (drule spec [of _ interval], simp)
      ultimately show ?thesis by simp
    next
      case False
      then have above: "\<not> has (midi + interval)" and below: "\<not> has (midi - interval)"
        by simp_all
      from lt above below
      have step: "findClosest_loop has midi interval = findClosest_loop has midi (interval + 1)"
        by (simp add: findClosest_loop.simps [of has midi interval])
      from "1.prems" have "0 \<le> interval + 1" by simp
      from "1.IH" [OF lt above below this]
      have ih: "(findClosest_loop has midi (interval + 1) = Inl (NoAvailableBuffers midi)) =
        (\<forall>r. interval + 1 \<le> r \<and> r < MAX_INTERVAL \<longrightarrow> \<not> has (midi + r) \<and> \<not> has (midi - r))" .
      have "(\<forall>r. interval + 1 \<le> r \<and> r < MAX_INTERVAL \<longrightarrow> \<not> has (midi + r) \<and> \<not> has (midi - r)) =
        (\<forall>r. interval \<le> r \<and> r < MAX_INTERVAL \<longrightarrow> \<not> has (midi + r) \<and> \<not> has (midi - r))"
      proof (intro iffI allI impI)
        fix r
        assume all: "\<forall>r. interval + 1 \<le> r \<and> r < MAX_INTERVAL \<longrightarrow> \<not> has (midi + r) \<and> \<not> has (midi - r)"
          and r: "interval \<le> r \<and> r < MAX_INTERVAL"
        show "\<not> has (midi + r) \<and> \<not> has (midi - r)"
        proof (cases "r = interval")
          case True
          with above below show ?thesis by simp
        next
          case False
          with r all show ?thesis by simp
        qed
      next
        fix r
        assume "\<forall>r. interval \<le> r \<and> r < MAX_INTERVAL \<longrightarrow> \<not> has (midi + r) \<and> \<not> has (midi - r)"
          and "interval + 1 \<le> r \<and> r < MAX_INTERVAL"
        then show "\<not> has (midi + r) \<and> \<not> has (midi - r)" by simp
      qed
      with step ih show ?thesis by simp
    qed
  qed
qed

lemma findClosest_loop_error:
  "findClosest_loop has midi i = Inl e \<Longrightarrow> e = NoAvailableBuffers midi"
proof (induction has midi i rule: findClosest_loop.induct)
  case (1 has midi interval)
  then show ?case
    by (simp add: findClosest_loop.simps [of has midi interval] split: if_splits)
qed

lemma findClosest_loop_above:
  "interval < MAX_INTERVAL \<Longrightarrow> has (midi + interval) \<Longrightarrow>
   findClosest_loop has midi interval = Inr (- interval)"
  by (simp add: findClosest_loop.simps [of has midi interval])

lemma findClosest_loop_below:
  "interval < MAX_INTERVAL \<Longrightarrow> \<not> has (midi + interval) \<Longrightarrow> has (midi - interval) \<Longrightarrow>
   findClosest_loop has midi interval = Inr interval"
  by (simp add: findClosest_loop.simps [of has midi interval])

lemma findClosest_loop_next:
  "interval < MAX_INTERVAL \<Longrightarrow> \<not> has (midi + interval) \<Longrightarrow> \<not> has (midi - interval) \<Longrightarrow>
   findClosest_loop has midi interval = findClosest_loop has midi (interval + 1)"
  by (simp add: findClosest_loop.simps [of has midi interval])

lemmas findClosest_loop_eval =
  findClosest_loop_above findClosest_loop_below findClosest_loop_next MAX_INTERVAL_def

lemma findClosest_stored:
  assumes "findClosest s midi = Inr d"
  shows "\<exists>buffer. buffers s (midi - d) = Some buffer"
proof -
  from assms have "findClosest_loop (buffers_has (buffers s)) midi 0 = Inr d"
    by (simp add: findClosest_def)
  from findClosest_loop_found [OF this] have "buffers_has (buffers s) (midi - d)"
    by simp
  then show ?thesis
    by (simp add: buffers_has_def)
qed

lemma findClosest_no_buffers:
  "buffers s = Map.empty \<Longrightarrow> findClosest s midi = Inl (NoAvailableBuffers midi)"
  unfolding findClosest_def
  by (subst findClosest_loop_fails) (simp_all add: buffers_has_def)

lemma buffers_has_example [simp]:
  "buffers_has (buffers (new_Sampler b)) k = (b k \<noteq> None)"
  by (simp add: buffers_has_def new_Sampler_def)

lemma findClosest_example_60:
  "findClosest sampler_60_64 60 = Inr 0"
  using findClosest_loop_above [of 0 "buffers_has (buffers sampler_60_64)" 60]
  by (simp add: findClosest_def MAX_INTERVAL_def sampler_60_64_def)

lemma findClosest_example_62:
  "findClosest sampler_60_64 62 = Inr (- 2)"
  by (simp add: findClosest_def findClosest_loop_eval sampler_60_64_def)

lemma findClosest_example_200:
  "findClosest sampler_60_64 200 = Inl (NoAvailableBuffers 200)"
  unfolding findClosest_def
  by (subst findClosest_loop_fails) (auto simp: sampler_60_64_def MAX_INTERVAL_def)

text \<open>
  C1. Whenever \<open>_findClosest\<close> returns an interval \<open>d\<close> for the requested key, the
  resolved key \<open>midi - d\<close> (the \<open>closestNote\<close> of \<open>triggerAttack\<close>) is a stored key, no
  stored key is nearer to the request than \<open>\<bar>d\<bar>\<close> semitones, and when the keys
  \<open>\<bar>d\<bar>\<close> above and \<open>\<bar>d\<bar>\<close> below are both stored the one above is chosen: the interval
  is \<open>- \<bar>d\<bar>\<close> for the key above and \<open>+ \<bar>d\<bar>\<close> for the key below.
\<close>

theorem findClosest_nearest_above_on_tie:
  assumes "findClosest s midi = Inr d"
  shows "buffers_has (buffers s) (midi - d) \<and>
    (\<forall>k. buffers_has (buffers s) k \<longrightarrow> \<bar>(midi - d) - midi\<bar> \<le> \<bar>k - midi\<bar>) \<and>
    (buffers_has (buffers s) (midi + \<bar>d\<bar>) \<longrightarrow> midi - d = midi + \<bar>d\<bar> \<and> d = - \<bar>d\<bar>) \<and>
    (\<not> buffers_has (buffers s) (midi + \<bar>d\<bar>) \<longrightarrow> midi - d = midi - \<bar>d\<bar> \<and> d = \<bar>d\<bar>)"
proof -
  let ?has = "buffers_has (buffers s)"
  from assms have loop: "findClosest_loop ?has midi 0 = Inr d"
    by (simp add: findClosest_def)
  from findClosest_loop_found [OF loop]
  have stored: "?has (midi - d)"
    and tie: "?has (midi + \<bar>d\<bar>) \<longrightarrow> d = - \<bar>d\<bar>"
    and nearer: "\<forall>r. 0 \<le> r \<and> r < \<bar>d\<bar> \<longrightarrow> \<not> ?has (midi + r) \<and> \<not> ?has (midi - r)"
    by simp_all
  have minimal: "\<bar>(midi - d) - midi\<bar> \<le> \<bar>k - midi\<bar>" if k: "?has k" for k
  proof (rule ccontr)
    assume "\<not> \<bar>(midi - d) - midi\<bar> \<le> \<bar>k - midi\<bar>"
    then have small: "0 \<le> \<bar>k - midi\<bar> \<and> \<bar>k - midi\<bar> < \<bar>d\<bar>" by arith
    with nearer have none: "\<not> ?has (midi + \<bar>k - midi\<bar>) \<and> \<not> ?has (midi - \<bar>k - midi\<bar>)"
      by blast
    have "k = midi + \<bar>k - midi\<bar> \<or> k = midi - \<bar>k - midi\<bar>" by arith
    with none k show False by metis
  qed
  have below: "midi - d = midi - \<bar>d\<bar> \<and> d = \<bar>d\<bar>" if "\<not> ?has (midi + \<bar>d\<bar>)"
  proof (cases "0 \<le> d")
    case True
    then show ?thesis by arith
  next
    case False
    then have "midi - d = midi + \<bar>d\<bar>" by arith
    then have "?has (midi + \<bar>d\<bar>)" using stored by (rule subst)
    with that show ?thesis by blast
  qed
  have above: "midi - d = midi + \<bar>d\<bar> \<and> d = - \<bar>d\<bar>" if "?has (midi + \<bar>d\<bar>)"
    using tie that by arith
  show ?thesis
  proof (intro conjI allI impI)
    show "?has (midi - d)" by (rule stored)
  next
    fix k assume "?has k"
    then show "\<bar>(midi - d) - midi\<bar> \<le> \<bar>k - midi\<bar>" by (rule minimal)
  next
    assume "?has (midi + \<bar>d\<bar>)"
    then show "midi - d = midi + \<bar>d\<bar>" using above by blast
  next
    assume "?has (midi + \<bar>d\<bar>)"
    then show "d = - \<bar>d\<bar>" using above by blast
  next
    assume "\<not> ?has (midi + \<bar>d\<bar>)"
    then show "midi - d = midi - \<bar>d\<bar>" using below by blast
  next
    assume "\<not> ?has (midi + \<bar>d\<bar>)"
    then show "d = \<bar>d\<bar>" using below by blast
  qed
qed

theorem findClosest_nearest_above_on_tie_witness:
  "findClosest sampler_60_64 62 = Inr (- 2) \<and>
   buffers_has (buffers sampler_60_64) (62 - 2) \<and>
   buffers_has (buffers sampler_60_64) (62 - (- 2))"
proof -
  have h: "findClosest sampler_60_64 62 = Inr (- 2)"
    by (simp add: findClosest_def findClosest_loop_eval sampler_60_64_def)
  have stored: "buffers_has (buffers sampler_60_64) (62 - 2)"
    by (simp add: sampler_60_64_def)
  from findClosest_nearest_above_on_tie [OF h]
  have "buffers_has (buffers sampler_60_64) (62 - (- 2))"
    by (rule conjunct1)
  with h stored show ?thesis by blast
qed

text \<open>
  C2, as stated, fails: a single stored key exactly 96 semitones above the request is
  not found, because the loop stops before \<open>interval\<close> reaches \<open>MAX_INTERVAL\<close>.
\<close>

theorem findClosest_distance_96_counterexample:
  "buffers_has (buffers sampler_156) (60 + 96) \<and>
   findClosest sampler_156 60 = Inl (NoAvailableBuffers 60)"
proof -
  have "findClosest_loop (buffers_has (buffers sampler_156)) 60 0 = Inl (NoAvailableBuffers 60)"
    by (subst findClosest_loop_fails) (auto simp: sampler_156_def MAX_INTERVAL_def)
  then show ?thesis
    by (simp add: findClosest_def sampler_156_def)
qed

text \<open>
  C2, amended. \<open>_findClosest\<close> raises its error exactly when every stored key is at
  least \<open>MAX_INTERVAL = 96\<close> semitones away from the request, and the error names the
  requested key: a nearest key at distance 95 still resolves, one at distance 96 fails.
\<close>

theorem findClosest_fails_iff:
  "MAX_INTERVAL = 96 \<and>
   (findClosest s midi = Inl (NoAvailableBuffers midi)) =
     (\<forall>k. buffers_has (buffers s) k \<longrightarrow> MAX_INTERVAL \<le> \<bar>k - midi\<bar>) \<and>
   (\<forall>e. findClosest s midi = Inl e \<longrightarrow> e = NoAvailableBuffers midi)"
proof -
  let ?has = "buffers_has (buffers s)"
  have "(\<forall>r. 0 \<le> r \<and> r < MAX_INTERVAL \<longrightarrow> \<not> ?has (midi + r) \<and> \<not> ?has (midi - r)) =
    (\<forall>k. ?has k \<longrightarrow> MAX_INTERVAL \<le> \<bar>k - midi\<bar>)"
  proof (intro iffI allI impI)
    fix k
    assume none: "\<forall>r. 0 \<le> r \<and> r < MAX_INTERVAL \<longrightarrow> \<not> ?has (midi + r) \<and> \<not> ?has (midi - r)"
      and k: "?has k"
    show "MAX_INTERVAL \<le> \<bar>k - midi\<bar>"
    proof (rule ccontr)
      assume "\<not> MAX_INTERVAL \<le> \<bar>k - midi\<bar>"
      then have "0 \<le> \<bar>k - midi\<bar> \<and> \<bar>k - midi\<bar> < MAX_INTERVAL" by simp
      with none have "\<not> ?has (midi + \<bar>k - midi\<bar>) \<and> \<not> ?has (midi - \<bar>k - midi\<bar>)"
        by blast
      moreover have "k = midi + \<bar>k - midi\<bar> \<or> k = midi - \<bar>k - midi\<bar>" by arith
      ultimately show False using k by metis
    qed
  next
    fix r
    assume far: "\<forall>k. ?has k \<longrightarrow> MAX_INTERVAL \<le> \<bar>k - midi\<bar>"
      and r: "0 \<le> r \<and> r < MAX_INTERVAL"
    have "\<not> ?has (midi + r)"
    proof
      assume "?has (midi + r)"
      with far have "MAX_INTERVAL \<le> \<bar>midi + r - midi\<bar>" by blast
      with r show False by simp
    qed
    moreover have "\<not> ?has (midi - r)"
    proof
      assume "?has (midi - r)"
      with far have "MAX_INTERVAL \<le> \<bar>midi - r - midi\<bar>" by blast
      with r show False by simp
    qed
    ultimately show "\<not> ?has (midi + r) \<and> \<not> ?has (midi - r)" by simp
  qed
  then have "(findClosest s midi = Inl (NoAvailableBuffers midi)) =
     (\<forall>k. ?has k \<longrightarrow> MAX_INTERVAL \<le> \<bar>k - midi\<bar>)"
    by (simp add: findClosest_def findClosest_loop_fails)
  moreover have "\<forall>e. findClosest s midi = Inl e \<longrightarrow> e = NoAvailableBuffers midi"
    by (auto simp: findClosest_def dest: findClosest_loop_error)
  ultimately show ?thesis
    by (simp add: MAX_INTERVAL_def)
qed

theorem findClosest_fails_iff_witness:
  "findClosest sampler_155 60 \<noteq> Inl (NoAvailableBuffers 60) \<and>
   buffers_has (buffers sampler_155) (60 + 95) \<and>
   findClosest sampler_156 59 = Inl (NoAvailableBuffers 59)"
proof -
  have "buffers_has (buffers sampler_155) 155 \<and> \<not> MAX_INTERVAL \<le> \<bar>155 - 60\<bar>"
    by (simp add: sampler_155_def MAX_INTERVAL_def)
  then have near: "\<not> (\<forall>k. buffers_has (buffers sampler_155) k \<longrightarrow> MAX_INTERVAL \<le> \<bar>k - 60\<bar>)"
    by blast
  have far: "\<forall>k. buffers_has (buffers sampler_156) k \<longrightarrow> MAX_INTERVAL \<le> \<bar>k - 59\<bar>"
    by (auto simp: sampler_156_def MAX_INTERVAL_def)
  have stored: "buffers_has (buffers sampler_155) (60 + 95)"
    by (simp add: sampler_155_def)
  from near far stored show ?thesis
    using findClosest_fails_iff [of sampler_155 60] findClosest_fails_iff [of sampler_156 59]
    by blast
qed

text \<open>
  C9. The playback ratio \<open>2^(i/12)\<close> of an integer interval \<open>i\<close> is strictly positive,
  is 1 exactly when \<open>i = 0\<close>, and the ratios of \<open>i\<close> and \<open>- i\<close> multiply to 1 (over the
  reals; the rounding of floating point is outside the model).
\<close>

theorem intervalToFrequencyRatio_properties:
  "0 < intervalToFrequencyRatio i \<and>
   (intervalToFrequencyRatio i = 1) = (i = 0) \<and>
   intervalToFrequencyRatio i * intervalToFrequencyRatio (- i) = 1"
proof -
  have "0 < intervalToFrequencyRatio i"
    by (simp add: intervalToFrequencyRatio_def)
  moreover have "(intervalToFrequencyRatio i = 1) = (i = 0)"
    by (simp add: intervalToFrequencyRatio_def)
  moreover have "intervalToFrequencyRatio i * intervalToFrequencyRatio (- i) = 1"
    by (simp add: intervalToFrequencyRatio_def flip: powr_add)
  ultimately show ?thesis by simp
qed

theorem intervalToFrequencyRatio_properties_witness:
  "0 < intervalToFrequencyRatio 7 \<and> intervalToFrequencyRatio 7 \<noteq> 1 \<and>
   intervalToFrequencyRatio 7 * intervalToFrequencyRatio (- 7) = 1"
  using intervalToFrequencyRatio_properties [of 7]
  by simp

section \<open>Properties of the containers\<close>

lemma Map_has_get: "Map_has m k = (Map_get m k \<noteq> None)"
  by (induction m) (auto split: if_splits)

lemma Map_get_set: "Map_get (Map_set m k v) k' = (if k' = k then Some v else Map_get m k')"
  by (induction m) auto

lemma Map_set_set: "Map_set (Map_set m k v) k v' = Map_set m k v'"
  by (induction m) auto

lemma register_source:
  "Array_push (if \<not> Map_has m midi then Map_set m midi [] else m) midi source =
   Map_set m midi ((case Map_get m midi of None \<Rightarrow> [] | Some sources \<Rightarrow> sources) @ [source])"
proof (cases "Map_get m midi")
  case None
  then show ?thesis
    by (simp add: Array_push_def Map_has_get Map_get_set Map_set_set)
next
  case (Some sources)
  then show ?thesis
    by (simp add: Array_push_def Map_has_get)
qed

section \<open>Properties of triggerAttack\<close>

lemma attack_note_throws:
  "findClosest s (toMidi (ctx s) note) = Inl e \<Longrightarrow> attack_note s time velocity note = (Some e, s)"
  by (simp add: attack_note_def)

lemma attack_note_plays:
  assumes "findClosest s (toMidi (ctx s) note) = Inr d"
    and "buffers s (toMidi (ctx s) note - d) = Some buffer"
  shows "attack_note s time velocity note = (None, played s time velocity (toMidi (ctx s) note) d buffer)"
  unfolding attack_note_def Let_def register_source
  using assms
  by (simp add: played_def voices_at_def source_start_def new_ToneBufferSource_def)

lemma played_frame [simp]:
  "buffers (played s time velocity midi d buffer) = buffers s"
  "ctx (played s time velocity midi d buffer) = ctx s"
  "curve (played s time velocity midi d buffer) = curve s"
  "attack (played s time velocity midi d buffer) = attack s"
  "release (played s time velocity midi d buffer) = release s"
  "next_ref (played s time velocity midi d buffer) = Suc (next_ref s)"
  by (simp_all add: played_def)

lemma played_voices:
  "voices_at (played s time velocity midi d buffer) k =
     (if k = midi then voices_at s midi @ [next_ref s] else voices_at s k)"
  by (simp add: played_def voices_at_def Map_get_set)

lemma played_heap_old:
  "r \<noteq> next_ref s \<Longrightarrow> heap (played s time velocity midi d buffer) r = heap s r"
  by (simp add: played_def)

lemma played_heap_new:
  "heap (played s time velocity midi d buffer) (next_ref s) =
     \<lparr>src_buffer = buffer, src_curve = curve s, src_fadeIn = attack s,
      src_fadeOut = release s, src_playbackRate = intervalToFrequencyRatio d,
      src_started = Some (time, 0, duration buffer / intervalToFrequencyRatio d, velocity),
      src_stopped = None, src_disposed = False, src_onended = Some midi\<rparr>"
  by (simp add: played_def)

lemma findClosest_played [simp]:
  "findClosest (played s time velocity midi d buffer) k = findClosest s k"
  by (simp add: findClosest_def)

lemma attack_note_result:
  assumes "attack_note s time velocity note = (e, s')"
  shows "(\<exists>err. e = Some err \<and> s' = s \<and> findClosest s (toMidi (ctx s) note) = Inl err) \<or>
    (\<exists>d buffer. e = None \<and> findClosest s (toMidi (ctx s) note) = Inr d \<and>
       buffers s (toMidi (ctx s) note - d) = Some buffer \<and>
       s' = played s time velocity (toMidi (ctx s) note) d buffer)"
proof (cases "findClosest s (toMidi (ctx s) note)")
  case (Inl err)
  with assms attack_note_throws [OF Inl, of time velocity] show ?thesis by simp
next
  case (Inr d)
  from findClosest_stored [OF Inr] obtain buffer
    where buffer: "buffers s (toMidi (ctx s) note - d) = Some buffer" by blast
  from assms attack_note_plays [OF Inr buffer, of time velocity] Inr buffer
  show ?thesis by simp
qed

lemma attack_forEach_frame:
  "attack_forEach s time velocity ns = (e, s') \<Longrightarrow>
     buffers s' = buffers s \<and> ctx s' = ctx s \<and> next_ref s \<le> next_ref s' \<and>
     (\<forall>r. r < next_ref s \<longrightarrow> heap s' r = heap s r)"
proof (induction ns arbitrary: s)
  case Nil
  then show ?case by simp
next
  case (Cons n ns)
  obtain e1 s1 where step: "attack_note s time velocity n = (e1, s1)"
    by (cases "attack_note s time velocity n")
  from attack_note_result [OF step]
  have frame1: "buffers s1 = buffers s \<and> ctx s1 = ctx s \<and> next_ref s \<le> next_ref s1 \<and>
     (\<forall>r. r < next_ref s \<longrightarrow> heap s1 r = heap s r)"
    by (auto simp: played_heap_old)
  show ?case
  proof (cases e1)
    case (Some err)
    with step Cons.prems have "s' = s1" by simp
    with frame1 show ?thesis by simp
  next
    case None
    with step Cons.prems have "attack_forEach s1 time velocity ns = (e, s')" by simp
    from Cons.IH [OF this] frame1 show ?thesis by auto
  qed
qed

lemma attack_forEach_append:
  "attack_forEach s time velocity (xs @ ys) =
     (case attack_forEach s time velocity xs of
        (Some e, s') \<Rightarrow> (Some e, s')
      | (None, s') \<Rightarrow> attack_forEach s' time velocity ys)"
  by (induction xs arbitrary: s) (auto split: prod.splits option.splits)

lemma new_refs_Cons:
  "{r + j |j. j < Suc (length xs) \<and> f ((x # xs) ! j) = k} =
   (if f x = k then {r} else {}) \<union> {Suc r + i |i. i < length xs \<and> f (xs ! i) = (k::int)}"
proof (intro equalityI subsetI)
  fix a
  assume "a \<in> {r + j |j. j < Suc (length xs) \<and> f ((x # xs) ! j) = k}"
  then obtain j where j: "a = r + j" "j < Suc (length xs)" "f ((x # xs) ! j) = k" by blast
  show "a \<in> (if f x = k then {r} else {}) \<union> {Suc r + i |i. i < length xs \<and> f (xs ! i) = k}"
  proof (cases j)
    case 0
    with j show ?thesis by simp
  next
    case (Suc i)
    with j have "a = Suc r + i \<and> i < length xs \<and> f (xs ! i) = k" by simp
    then show ?thesis by blast
  qed
next
  fix a
  assume "a \<in> (if f x = k then {r} else {}) \<union> {Suc r + i |i. i < length xs \<and> f (xs ! i) = k}"
  then consider "f x = k" "a = r" | i where "a = Suc r + i" "i < length xs" "f (xs ! i) = k"
    by (auto split: if_splits)
  then show "a \<in> {r + j |j. j < Suc (length xs) \<and> f ((x # xs) ! j) = k}"
  proof cases
    case 1
    then have "a = r + 0 \<and> 0 < Suc (length xs) \<and> f ((x # xs) ! 0) = k" by simp
    then show ?thesis by blast
  next
    case 2
    then have "a = r + Suc i \<and> Suc i < Suc (length xs) \<and> f ((x # xs) ! Suc i) = k" by simp
    then show ?thesis by blast
  qed
qed

lemma attack_forEach_registers:
  "attack_forEach s time velocity ns = (None, s') \<Longrightarrow>
     set (voices_at s' k) =
       set (voices_at s k) \<union>
       {next_ref s + i |i. i < length ns \<and> toMidi (ctx s) (ns ! i) = k}"
proof (induction ns arbitrary: s)
  case Nil
  then show ?case by simp
next
  case (Cons n ns)
  obtain e1 s1 where step: "attack_note s time velocity n = (e1, s1)"
    by (cases "attack_note s time velocity n")
  with Cons.prems have e1: "e1 = None"
    by (cases e1) simp_all
  with step Cons.prems have rest: "attack_forEach s1 time velocity ns = (None, s')" by simp
  from attack_note_result [OF step] e1 obtain d buffer
    where s1: "s1 = played s time velocity (toMidi (ctx s) n) d buffer" by auto
  have first: "set (voices_at s1 k) =
      set (voices_at s k) \<union> (if toMidi (ctx s) n = k then {next_ref s} else {})"
    by (auto simp: s1 played_voices)
  from Cons.IH [OF rest]
  have "set (voices_at s' k) =
      set (voices_at s1 k) \<union>
      {Suc (next_ref s) + i |i. i < length ns \<and> toMidi (ctx s) (ns ! i) = k}"
    by (simp add: s1)
  with first have "set (voices_at s' k) =
      set (voices_at s k) \<union> ((if toMidi (ctx s) n = k then {next_ref s} else {}) \<union>
      {Suc (next_ref s) + i |i. i < length ns \<and> toMidi (ctx s) (ns ! i) = k})"
    by (simp add: Un_assoc)
  then show ?case
    by (simp only: new_refs_Cons [of "next_ref s" ns "toMidi (ctx s)" n k] length_Cons)
qed

lemma attack_forEach_sources:
  "attack_forEach s time velocity ns = (None, s') \<Longrightarrow> i < length ns \<Longrightarrow>
     \<exists>d buffer. findClosest s (toMidi (ctx s) (ns ! i)) = Inr d \<and>
       buffers s (toMidi (ctx s) (ns ! i) - d) = Some buffer \<and>
       heap s' (next_ref s + i) =
         \<lparr>src_buffer = buffer, src_curve = curve s, src_fadeIn = attack s,
          src_fadeOut = release s, src_playbackRate = intervalToFrequencyRatio d,
          src_started = Some (time, 0, duration buffer / intervalToFrequencyRatio d, velocity),
          src_stopped = None, src_disposed = False,
          src_onended = Some (toMidi (ctx s) (ns ! i))\<rparr>"
proof (induction ns arbitrary: s i)
  case Nil
  then show ?case by simp
next
  case (Cons n ns)
  obtain e1 s1 where step: "attack_note s time velocity n = (e1, s1)"
    by (cases "attack_note s time velocity n")
  with Cons.prems have e1: "e1 = None"
    by (cases e1) simp_all
  with step Cons.prems have rest: "attack_forEach s1 time velocity ns = (None, s')" by simp
  from attack_note_result [OF step] e1 obtain d buffer
    where d: "findClosest s (toMidi (ctx s) n) = Inr d"
      and buffer: "buffers s (toMidi (ctx s) n - d) = Some buffer"
      and s1: "s1 = played s time velocity (toMidi (ctx s) n) d buffer" by auto
  show ?case
  proof (cases i)
    case 0
    from attack_forEach_frame [OF rest] have "heap s' (next_ref s) = heap s1 (next_ref s)"
      by (simp add: s1)
    with d buffer 0 show ?thesis
      by (simp add: s1 played_heap_new)
  next
    case (Suc j)
    with Cons.prems have "j < length ns" by simp
    from Cons.IH [OF rest this] Suc show ?thesis
      by (simp add: s1)
  qed
qed

lemma attack_forEach_no_buffers:
  assumes "buffers s = Map.empty"
  shows "attack_forEach s time velocity ns =
    ((case ns of [] \<Rightarrow> None | n # rest \<Rightarrow> Some (NoAvailableBuffers (toMidi (ctx s) n))), s)"
proof (cases ns)
  case Nil
  then show ?thesis by simp
next
  case (Cons n rest)
  have "findClosest s (toMidi (ctx s) n) = Inl (NoAvailableBuffers (toMidi (ctx s) n))"
    by (rule findClosest_no_buffers [OF assms])
  from attack_note_throws [OF this, of time velocity] Cons
  show ?thesis by simp
qed

lemma example_ctx_simps [simp]:
  "toMidi (ctx (new_Sampler b)) = id"
  "toSeconds (ctx (new_Sampler b)) (Seconds x) = x"
  "toSeconds (ctx (new_Sampler b)) Undefined = 0"
  by (simp_all add: new_Sampler_def example_ctx_def)

lemma new_Sampler_simps [simp]:
  "voices_at (new_Sampler b) k = []"
  "next_ref (new_Sampler b) = 0"
  "buffers (new_Sampler b) = b"
  "activeSources (new_Sampler b) = []"
  by (simp_all add: voices_at_def new_Sampler_def)

lemma attack_example_62:
  "triggerAttack sampler_60_64 (Scalar 62) Undefined None =
     (None, played sampler_60_64 Undefined 1 62 (- 2) \<lparr>duration = 2\<rparr>)"
proof -
  have r62: "findClosest sampler_60_64 (toMidi (ctx sampler_60_64) 62) = Inr (- 2)"
    using findClosest_example_62 by (simp add: sampler_60_64_def)
  have b64: "buffers sampler_60_64 (toMidi (ctx sampler_60_64) 62 - (- 2)) = Some \<lparr>duration = 2\<rparr>"
    by (simp add: sampler_60_64_def new_Sampler_def example_ctx_def)
  from attack_note_plays [OF r62 b64, of Undefined 1]
  show ?thesis
    by (simp add: triggerAttack_def sampler_60_64_def)
qed

text \<open>
  C4. When \<open>triggerAttack\<close> succeeds, the source created for the \<open>i\<close>-th pitch of the
  call is registered under the MIDI number of that requested pitch; it plays the buffer of
  the resolved key at the ratio of the resolved interval, and its \<open>onended\<close> callback
  closes over the requested key. The new sources go under the requested keys and nowhere
  else: under any key, the sources after the call are those before it and the new sources
  of the pitches that asked for that key.
\<close>

theorem triggerAttack_registers_under_requested_key:
  assumes "triggerAttack s pitches time velocity = (None, s')"
    and "i < length (as_array pitches)"
  shows "next_ref s + i \<in> set (voices_at s' (toMidi (ctx s) (as_array pitches ! i))) \<and>
    (\<exists>d buffer. findClosest s (toMidi (ctx s) (as_array pitches ! i)) = Inr d \<and>
       buffers s (toMidi (ctx s) (as_array pitches ! i) - d) = Some buffer \<and>
       src_buffer (heap s' (next_ref s + i)) = buffer \<and>
       src_playbackRate (heap s' (next_ref s + i)) = intervalToFrequencyRatio d \<and>
       src_onended (heap s' (next_ref s + i)) = Some (toMidi (ctx s) (as_array pitches ! i))) \<and>
    (\<forall>k. set (voices_at s' k) =
       set (voices_at s k) \<union>
       {next_ref s + j |j. j < length (as_array pitches) \<and>
          toMidi (ctx s) (as_array pitches ! j) = k})"
proof -
  let ?v = "case velocity of None \<Rightarrow> 1 | Some v \<Rightarrow> v"
  let ?ns = "as_array pitches"
  from assms(1) have run: "attack_forEach s time ?v ?ns = (None, s')"
    by (simp add: triggerAttack_def)
  have everywhere: "set (voices_at s' k) =
       set (voices_at s k) \<union> {next_ref s + j |j. j < length ?ns \<and> toMidi (ctx s) (?ns ! j) = k}"
    for k
    by (rule attack_forEach_registers [OF run])
  from assms(2)
  have "next_ref s + i \<in> {next_ref s + j |j. j < length ?ns \<and>
      toMidi (ctx s) (?ns ! j) = toMidi (ctx s) (?ns ! i)}"
    by blast
  with everywhere [of "toMidi (ctx s) (?ns ! i)"]
  have registered: "next_ref s + i \<in> set (voices_at s' (toMidi (ctx s) (?ns ! i)))"
    by blast
  from attack_forEach_sources [OF run assms(2)] obtain d buffer
    where "findClosest s (toMidi (ctx s) (?ns ! i)) = Inr d"
      and "buffers s (toMidi (ctx s) (?ns ! i) - d) = Some buffer"
      and "heap s' (next_ref s + i) =
         \<lparr>src_buffer = buffer, src_curve = curve s, src_fadeIn = attack s,
          src_fadeOut = release s, src_playbackRate = intervalToFrequencyRatio d,
          src_started = Some (time, 0, duration buffer / intervalToFrequencyRatio d, ?v),
          src_stopped = None, src_disposed = False,
          src_onended = Some (toMidi (ctx s) (?ns ! i))\<rparr>"
    by blast
  then have "\<exists>d buffer. findClosest s (toMidi (ctx s) (?ns ! i)) = Inr d \<and>
       buffers s (toMidi (ctx s) (?ns ! i) - d) = Some buffer \<and>
       src_buffer (heap s' (next_ref s + i)) = buffer \<and>
       src_playbackRate (heap s' (next_ref s + i)) = intervalToFrequencyRatio d \<and>
       src_onended (heap s' (next_ref s + i)) = Some (toMidi (ctx s) (?ns ! i))"
    by simp
  with registered everywhere show ?thesis by blast
qed

theorem triggerAttack_registers_under_requested_key_witness:
  "triggerAttack sampler_60_64 (Scalar 62) Undefined None =
     (None, played sampler_60_64 Undefined 1 62 (- 2) \<lparr>duration = 2\<rparr>) \<and>
   (0::nat) < length (as_array (Scalar (62::int))) \<and>
   next_ref sampler_60_64 + 0 \<in>
     set (voices_at (played sampler_60_64 Undefined 1 62 (- 2) \<lparr>duration = 2\<rparr>)
          (toMidi (ctx sampler_60_64) (as_array (Scalar 62) ! 0))) \<and>
   voices_at (played sampler_60_64 Undefined 1 62 (- 2) \<lparr>duration = 2\<rparr>) 62 = [0] \<and>
   voices_at (played sampler_60_64 Undefined 1 62 (- 2) \<lparr>duration = 2\<rparr>) 64 = []"
proof -
  have len: "(0::nat) < length (as_array (Scalar (62::int)))" by simp
  have v62: "voices_at (played sampler_60_64 Undefined 1 62 (- 2) \<lparr>duration = 2\<rparr>) 62 = [0]"
    by (simp add: played_voices sampler_60_64_def)
  have v64: "voices_at (played sampler_60_64 Undefined 1 62 (- 2) \<lparr>duration = 2\<rparr>) 64 = []"
    by (simp add: played_voices sampler_60_64_def)
  from triggerAttack_registers_under_requested_key [OF attack_example_62 len]
  have "next_ref sampler_60_64 + 0 \<in>
     set (voices_at (played sampler_60_64 Undefined 1 62 (- 2) \<lparr>duration = 2\<rparr>)
          (toMidi (ctx sampler_60_64) (as_array (Scalar 62) ! 0)))"
    by (rule conjunct1)
  with attack_example_62 len v62 v64 show ?thesis by blast
qed

text \<open>
  C5, as stated, fails: with samples at 60 and 64, attacking the pitches 200 and 60 in one
  call throws for 200 and leaves the sampler as it was, although 60 resolves (to itself):
  the sibling pitch gets no voice.
\<close>

theorem triggerAttack_sibling_counterexample:
  "findClosest sampler_60_64 60 = Inr 0 \<and>
   triggerAttack sampler_60_64 (Array [200, 60]) Undefined None =
     (Some (NoAvailableBuffers 200), sampler_60_64) \<and>
   voices_at sampler_60_64 60 = []"
proof -
  have "findClosest sampler_60_64 (toMidi (ctx sampler_60_64) 200) = Inl (NoAvailableBuffers 200)"
    using findClosest_example_200 by (simp add: sampler_60_64_def)
  from attack_note_throws [OF this, of Undefined 1]
  have "triggerAttack sampler_60_64 (Array [200, 60]) Undefined None =
     (Some (NoAvailableBuffers 200), sampler_60_64)"
    by (simp add: triggerAttack_def)
  moreover have "voices_at sampler_60_64 60 = []"
    by (simp add: voices_at_def sampler_60_64_def new_Sampler_def)
  ultimately show ?thesis
    using findClosest_example_60 by simp
qed

text \<open>
  C5, amended. A pitch with no stored sample within the search radius makes
  \<open>triggerAttack\<close> throw the resolution error, which names that pitch, at that point of
  the sequence: the pitches before it have been processed (the sampler is in the state the
  call on them alone would leave), and the failing pitch and every pitch after it get no
  voice.
\<close>

theorem triggerAttack_stops_at_unresolved_pitch:
  assumes "triggerAttack s (Array pre) time velocity = (None, s1)"
    and "findClosest s (toMidi (ctx s) bad) = Inl e"
  shows "triggerAttack s (Array (pre @ bad # post)) time velocity = (Some e, s1) \<and>
    e = NoAvailableBuffers (toMidi (ctx s) bad)"
proof -
  let ?v = "case velocity of None \<Rightarrow> 1 | Some v \<Rightarrow> v"
  from assms(1) have pre: "attack_forEach s time ?v pre = (None, s1)"
    by (simp add: triggerAttack_def)
  from attack_forEach_frame [OF pre]
  have same: "buffers s1 = buffers s" "ctx s1 = ctx s" by simp_all
  from same assms(2) have "findClosest s1 (toMidi (ctx s1) bad) = Inl e"
    by (simp add: findClosest_def)
  from attack_note_throws [OF this, of time ?v]
  have "attack_forEach s1 time ?v (bad # post) = (Some e, s1)" by simp
  with pre have "attack_forEach s time ?v (pre @ bad # post) = (Some e, s1)"
    by (simp add: attack_forEach_append)
  moreover from assms(2) have "e = NoAvailableBuffers (toMidi (ctx s) bad)"
    by (simp add: findClosest_def findClosest_loop_error)
  ultimately show ?thesis
    by (simp add: triggerAttack_def)
qed

theorem triggerAttack_stops_at_unresolved_pitch_witness:
  "triggerAttack sampler_60_64 (Array [62]) Undefined None =
     (None, played sampler_60_64 Undefined 1 62 (- 2) \<lparr>duration = 2\<rparr>) \<and>
   findClosest sampler_60_64 (toMidi (ctx sampler_60_64) 200) = Inl (NoAvailableBuffers 200) \<and>
   triggerAttack sampler_60_64 (Array ([62] @ 200 # [60])) Undefined None =
     (Some (NoAvailableBuffers 200), played sampler_60_64 Undefined 1 62 (- 2) \<lparr>duration = 2\<rparr>)"
proof -
  have r62: "findClosest sampler_60_64 (toMidi (ctx sampler_60_64) 62) = Inr (- 2)"
    using findClosest_example_62 by (simp add: sampler_60_64_def)
  have b64: "buffers sampler_60_64 (toMidi (ctx sampler_60_64) 62 - (- 2)) = Some \<lparr>duration = 2\<rparr>"
    by (simp add: sampler_60_64_def new_Sampler_def example_ctx_def)
  from attack_note_plays [OF r62 b64, of Undefined 1]
  have pre: "triggerAttack sampler_60_64 (Array [62]) Undefined None =
     (None, played sampler_60_64 Undefined 1 62 (- 2) \<lparr>duration = 2\<rparr>)"
    by (simp add: triggerAttack_def sampler_60_64_def)
  have bad: "findClosest sampler_60_64 (toMidi (ctx sampler_60_64) 200) = Inl (NoAvailableBuffers 200)"
    using findClosest_example_200 by (simp add: sampler_60_64_def)
  from triggerAttack_stops_at_unresolved_pitch [OF pre bad, of "[60]"] pre bad
  show ?thesis by blast
qed

section \<open>Properties of triggerRelease\<close>

lemma stop_forEach_stopped:
  "src_stopped (stop_forEach h time sources r) =
     (if r \<in> set sources then Some time else src_stopped (h r))"
  by (induction sources arbitrary: h) (auto simp: source_stop_def)


lemma release_note_sounding:
  assumes "Map_has (activeSources s) (toMidi (ctx s) n)"
    and "voices_at s (toMidi (ctx s) n) \<noteq> []"
  shows "release_note s time n =
    (s\<lparr>activeSources := Map_set (activeSources s) (toMidi (ctx s) n) [],
       heap := stop_forEach (heap s) (Seconds (toSeconds (ctx s) time))
                 (voices_at s (toMidi (ctx s) n))\<rparr>,
     Seconds (toSeconds (ctx s) time))"
  using assms by (simp add: release_note_def Let_def)

lemma release_note_silent:
  assumes "\<not> Map_has (activeSources s) (toMidi (ctx s) n) \<or> voices_at s (toMidi (ctx s) n) = []"
  shows "release_note s time n = (s, time)"
  using assms by (auto simp: release_note_def Let_def)

lemma triggerRelease_Scalar:
  "triggerRelease s (Scalar n) time = (None, fst (release_note s time n))"
  by (simp add: triggerRelease_def split: prod.splits)

lemma triggerRelease_key_empty:
  "voices_at (snd (triggerRelease s (Scalar n) time)) (toMidi (ctx s) n) = []"
proof (cases "Map_has (activeSources s) (toMidi (ctx s) n) \<and> voices_at s (toMidi (ctx s) n) \<noteq> []")
  case True
  then show ?thesis
    by (simp add: triggerRelease_Scalar release_note_sounding voices_at_def Map_get_set)
next
  case False
  then have silent: "release_note s time n = (s, time)"
    by (auto intro: release_note_silent)
  from False have "voices_at s (toMidi (ctx s) n) = []"
    by (auto simp: voices_at_def Map_has_get)
  with silent show ?thesis
    by (simp add: triggerRelease_Scalar)
qed

lemma release_forEach_empty_pool:
  "activeSources s = [] \<Longrightarrow> release_forEach s time ns = (s, time)"
proof (induction ns arbitrary: time)
  case Nil
  then show ?case by simp
next
  case (Cons n ns)
  from Cons.prems have "release_note s time n = (s, time)"
    by (simp add: release_note_silent)
  with Cons show ?case by simp
qed

lemma triggerRelease_empty_pool:
  "activeSources s = [] \<Longrightarrow> triggerRelease s pitches time = (None, s)"
  by (simp add: triggerRelease_def release_forEach_empty_pool)

lemma release_each_empty_pool:
  "activeSources s = [] \<Longrightarrow> release_each s computedTime ds index ns = (None, s)"
  by (induction ns arbitrary: index) (simp_all add: triggerRelease_empty_pool Let_def)

text \<open>
  C3. After a successful \<open>triggerAttack\<close> of the pitch \<open>X\<close>, a \<open>triggerRelease\<close> of \<open>X\<close>
  (at any time) returns normally and leaves the empty array under the key of \<open>X\<close>. The
  call itself stops every source that was registered there, the one just created
  included, and stores the empty array: nothing is left to the \<open>onended\<close> callbacks or to
  the end of the fade-out. Indeed in every state of the pool, whatever callbacks have run
  before, no source is left under the key of \<open>X\<close> when \<open>triggerRelease\<close> of \<open>X\<close> returns.
\<close>

theorem triggerRelease_clears_key_eagerly:
  assumes "triggerAttack s (Scalar X) t velocity = (None, s1)"
  shows "fst (triggerRelease s1 (Scalar X) t') = None \<and>
    Map_get (activeSources (snd (triggerRelease s1 (Scalar X) t'))) (toMidi (ctx s) X) = Some [] \<and>
    voices_at (snd (triggerRelease s1 (Scalar X) t')) (toMidi (ctx s) X) = [] \<and>
    next_ref s \<in> set (voices_at s1 (toMidi (ctx s) X)) \<and>
    (\<forall>source \<in> set (voices_at s1 (toMidi (ctx s) X)).
       src_stopped (heap (snd (triggerRelease s1 (Scalar X) t')) source) =
         Some (Seconds (toSeconds (ctx s) t'))) \<and>
    (\<forall>s0 :: 'n Sampler.
       voices_at (snd (triggerRelease s0 (Scalar X) t')) (toMidi (ctx s0) X) = [])"
proof -
  let ?v = "case velocity of None \<Rightarrow> 1 | Some v \<Rightarrow> v"
  let ?midi = "toMidi (ctx s) X"
  from assms have "attack_note s t ?v X = (None, s1)"
    by (simp add: triggerAttack_def split: prod.splits option.splits)
  from attack_note_result [OF this] obtain d buffer
    where s1: "s1 = played s t ?v ?midi d buffer" by auto
  have ctx1: "ctx s1 = ctx s" by (simp add: s1)
  have voices1: "voices_at s1 ?midi = voices_at s ?midi @ [next_ref s]"
    by (simp add: s1 played_voices)
  have has1: "Map_has (activeSources s1) (toMidi (ctx s1) X)"
    by (simp add: s1 played_def Map_has_get Map_get_set)
  from voices1 have sounding: "voices_at s1 (toMidi (ctx s1) X) \<noteq> []"
    by (simp add: ctx1)
  let ?s2 = "s1\<lparr>activeSources := Map_set (activeSources s1) ?midi [],
       heap := stop_forEach (heap s1) (Seconds (toSeconds (ctx s) t')) (voices_at s1 ?midi)\<rparr>"
  from release_note_sounding [OF has1 sounding, of t']
  have released: "triggerRelease s1 (Scalar X) t' = (None, ?s2)"
    by (simp add: triggerRelease_Scalar ctx1)
  have "Map_get (activeSources ?s2) ?midi = Some []"
    by (simp add: Map_get_set)
  moreover from this have "voices_at ?s2 ?midi = []"
    by (simp add: voices_at_def)
  moreover from voices1 have "next_ref s \<in> set (voices_at s1 ?midi)" by simp
  moreover have "\<forall>source \<in> set (voices_at s1 ?midi).
      src_stopped (heap ?s2 source) = Some (Seconds (toSeconds (ctx s) t'))"
    by (simp add: stop_forEach_stopped)
  ultimately show ?thesis
    by (simp only: released fst_conv snd_conv simp_thms triggerRelease_key_empty)
qed

theorem triggerRelease_clears_key_eagerly_witness:
  "triggerAttack sampler_60_64 (Scalar 62) Undefined None =
     (None, played sampler_60_64 Undefined 1 62 (- 2) \<lparr>duration = 2\<rparr>) \<and>
   fst (triggerRelease (played sampler_60_64 Undefined 1 62 (- 2) \<lparr>duration = 2\<rparr>)
          (Scalar 62) (Seconds 3)) = None \<and>
   voices_at (snd (triggerRelease (played sampler_60_64 Undefined 1 62 (- 2) \<lparr>duration = 2\<rparr>)
          (Scalar 62) (Seconds 3))) 62 = [] \<and>
   voices_at (played sampler_60_64 Undefined 1 62 (- 2) \<lparr>duration = 2\<rparr>) 62 = [0]"
proof -
  have v62: "voices_at (played sampler_60_64 Undefined 1 62 (- 2) \<lparr>duration = 2\<rparr>) 62 = [0]"
    by (simp add: played_voices sampler_60_64_def)
  have midi: "toMidi (ctx sampler_60_64) 62 = 62"
    by (simp add: sampler_60_64_def)
  from triggerRelease_clears_key_eagerly [OF attack_example_62, of "Seconds 3"]
  have "fst (triggerRelease (played sampler_60_64 Undefined 1 62 (- 2) \<lparr>duration = 2\<rparr>)
          (Scalar 62) (Seconds 3)) = None \<and>
     voices_at (snd (triggerRelease (played sampler_60_64 Undefined 1 62 (- 2) \<lparr>duration = 2\<rparr>)
          (Scalar 62) (Seconds 3))) 62 = []"
    by (simp only: midi)
  with attack_example_62 v62 show ?thesis by blast
qed

text \<open>
  C10. Called with an empty array of pitches, \<open>triggerAttack\<close> and \<open>triggerRelease\<close>
  return normally and leave the sampler exactly as it was: no source is created, started
  or stopped.
\<close>

theorem trigger_empty_array_no_effect:
  "triggerAttack s (Array []) time velocity = (None, s) \<and>
   triggerRelease s (Array []) time = (None, s)"
  by (simp add: triggerAttack_def triggerRelease_def)

theorem trigger_empty_array_no_effect_witness:
  "triggerAttack sampler_playing (Array []) (Seconds 1) (Some 1) = (None, sampler_playing) \<and>
   triggerRelease sampler_playing (Array []) (Seconds 1) = (None, sampler_playing)"
  by (rule trigger_empty_array_no_effect)

section \<open>Properties of releaseAll\<close>

lemma drain_states_Nil [simp]:
  "drain_states time (h, []) = [(h, [])]"
  by (simp add: drain_states.simps [of time "(h, [])"] drain_step_def)









section \<open>Properties of dispose\<close>

lemma dispose_fields [simp]:
  "activeSources (dispose s) = []"
  "buffers (dispose s) = Map.empty"
  "ctx (dispose s) = ctx s"
  by (simp_all add: dispose_def buffers_dispose_def)

text \<open>
  C8, as stated, fails: the class has no use-after-dispose check. After \<open>dispose\<close>, a
  \<open>triggerRelease\<close> of a pitch that was sounding returns normally, with no error.
\<close>

theorem triggerRelease_after_dispose_counterexample:
  "voices_at sampler_playing 60 = [0] \<and>
   triggerRelease (dispose sampler_playing) (Scalar 60) (Seconds 1) =
     (None, dispose sampler_playing)"
proof -
  have "voices_at sampler_playing 60 = [0]"
    by (simp add: voices_at_def sampler_playing_def)
  moreover have "triggerRelease (dispose sampler_playing) (Scalar 60) (Seconds 1) =
     (None, dispose sampler_playing)"
    by (rule triggerRelease_empty_pool) simp
  ultimately show ?thesis by simp
qed

text \<open>
  C8, amended. After \<open>dispose\<close> the pool is empty, and no trigger operation creates or
  registers a source or changes the sampler in any way. \<open>triggerRelease\<close> returns normally.
  \<open>triggerAttack\<close> and \<open>triggerAttackRelease\<close> on at least one pitch throw the ordinary
  resolution error for the first pitch, the buffer storage being released; on an empty
  array of pitches they return normally.
\<close>

theorem triggers_after_dispose:
  "activeSources (dispose s) = [] \<and>
   triggerRelease (dispose s) pitches time = (None, dispose s) \<and>
   triggerAttack (dispose s) pitches time velocity =
     ((case as_array pitches of [] \<Rightarrow> None
       | p # rest \<Rightarrow> Some (NoAvailableBuffers (toMidi (ctx s) p))), dispose s) \<and>
   triggerAttackRelease (dispose s) pitches dur time velocity =
     ((case as_array pitches of [] \<Rightarrow> None
       | p # rest \<Rightarrow> Some (NoAvailableBuffers (toMidi (ctx s) p))), dispose s)"
proof -
  let ?d = "dispose s"
  let ?e = "case as_array pitches of [] \<Rightarrow> None
       | p # rest \<Rightarrow> Some (NoAvailableBuffers (toMidi (ctx s) p))"
  have pool: "activeSources ?d = []" by simp
  have rel: "triggerRelease ?d ps t = (None, ?d)" for ps t
    by (rule triggerRelease_empty_pool) simp
  have att: "triggerAttack ?d pitches t v = (?e, ?d)" for t v
    using attack_forEach_no_buffers [of ?d t _ "as_array pitches"]
    by (cases "as_array pitches") (simp_all add: triggerAttack_def)
  have "triggerAttackRelease ?d pitches dur time velocity = (?e, ?d)"
  proof (cases "as_array pitches")
    case Nil
    with att have ok: "triggerAttack ?d pitches t v = (None, ?d)" for t v by simp
    from Nil have arr: "isArray pitches" by (cases pitches) simp_all
    show ?thesis
    proof (cases dur)
      case (Scalar d)
      with ok rel Nil show ?thesis
        by (simp add: triggerAttackRelease_def Let_def)
    next
      case (Array ds)
      with ok arr Nil show ?thesis
        by (simp add: triggerAttackRelease_def Let_def)
    qed
  next
    case (Cons p rest)
    with att have "triggerAttack ?d pitches t v =
        (Some (NoAvailableBuffers (toMidi (ctx s) p)), ?d)" for t v by simp
    with Cons show ?thesis
      by (simp add: triggerAttackRelease_def Let_def)
  qed
  with pool rel att show ?thesis by simp
qed

theorem triggers_after_dispose_witness:
  "activeSources (dispose sampler_playing) = [] \<and>
   triggerRelease (dispose sampler_playing) (Array [60, 62]) (Seconds 1) =
     (None, dispose sampler_playing) \<and>
   triggerAttack (dispose sampler_playing) (Array [60, 62]) (Seconds 1) None =
     (Some (NoAvailableBuffers 60), dispose sampler_playing) \<and>
   triggerAttackRelease (dispose sampler_playing) (Array [60, 62]) (Scalar (Seconds 2)) (Seconds 1) None =
     (Some (NoAvailableBuffers 60), dispose sampler_playing)"
proof -
  have midi: "toMidi (ctx sampler_playing) = id"
    by (simp add: sampler_playing_def new_Sampler_def example_ctx_def)
  from triggers_after_dispose
    [of sampler_playing "Array [60, 62]" "Seconds 1" None "Scalar (Seconds 2)"]
  show ?thesis
    by (simp add: midi)
qed

section \<open>Properties of triggerAttackRelease\<close>

text \<open>
  C6 at a concrete call: with a sample at 60, \<open>triggerAttackRelease(60, [1], 0)\<close> does
  throw the assertion error, but only after the attack has run: the sampler is left with
  the new source registered under 60, where there was none before.
\<close>

theorem triggerAttackRelease_scalar_pitch_array_duration:
  "voices_at sampler_60_64 60 = [] \<and>
   triggerAttackRelease sampler_60_64 (Scalar 60) (Array [Seconds 1]) (Seconds 0) None =
     (Some (AssertionFailed ''notes must be an array when duration is array''),
      played sampler_60_64 (Seconds 0) 1 60 0 \<lparr>duration = 2\<rparr>) \<and>
   voices_at (played sampler_60_64 (Seconds 0) 1 60 0 \<lparr>duration = 2\<rparr>) 60 = [0]"
proof -
  have r60: "findClosest sampler_60_64 (toMidi (ctx sampler_60_64) 60) = Inr 0"
    using findClosest_example_60 by (simp add: sampler_60_64_def)
  have b60: "buffers sampler_60_64 (toMidi (ctx sampler_60_64) 60 - 0) = Some \<lparr>duration = 2\<rparr>"
    by (simp add: sampler_60_64_def)
  from attack_note_plays [OF r60 b60, of "Seconds 0" 1]
  have "triggerAttack sampler_60_64 (Scalar 60) (Seconds 0) (Some 1) =
     (None, played sampler_60_64 (Seconds 0) 1 60 0 \<lparr>duration = 2\<rparr>)"
    by (simp add: triggerAttack_def sampler_60_64_def)
  then have "triggerAttackRelease sampler_60_64 (Scalar 60) (Array [Seconds 1]) (Seconds 0) None =
     (Some (AssertionFailed ''notes must be an array when duration is array''),
      played sampler_60_64 (Seconds 0) 1 60 0 \<lparr>duration = 2\<rparr>)"
    by (simp add: triggerAttackRelease_def sampler_60_64_def)
  moreover have "voices_at sampler_60_64 60 = []"
    by (simp add: sampler_60_64_def)
  moreover have "voices_at (played sampler_60_64 (Seconds 0) 1 60 0 \<lparr>duration = 2\<rparr>) 60 = [0]"
    by (simp add: played_voices sampler_60_64_def)
  ultimately show ?thesis by simp
qed

end
